theory Spec2Isabelle
  imports Main "HOL-Library.AList"
begin

section \<open>JavaScript values used by utils.ts\<close>

text \<open>
  Strings are lists of code units (\<open>char\<close>, so code units below 256). The numbers
  that the module produces come from \<open>parseInt\<close>: NaN, an integer that a double holds
  exactly (\<open>Num n\<close>, with \<open>n\<close> of absolute value at most \<open>2 ^ 53\<close>), the negative
  zero, or, for a digit string whose value \<open>n\<close> is beyond that range, the double that
  the runtime rounds \<open>n\<close> to (\<open>Rounded n\<close>: near \<open>n\<close>, or an infinity; the model does
  not say which double it is).
\<close>

datatype jsnum = NaN | Num int | NegZero | Rounded int

datatype js_error = TypeError

subsection \<open>Regular expressions (no flags)\<close>

text \<open>
  The fragment of the pattern language that the four literals of \<open>detectBrowser\<close> use:
  literal characters, \<open>\d\<close>, \<open>.\<close>, sequence, alternation, the greedy \<open>+\<close>,
  capturing groups and \<open>$\<close>. Groups are numbered by their opening parenthesis, from
  left to right.
\<close>

datatype regex =
    Lit char
  | Digit
  | AnyChar
  | EndAnchor
  | Seq regex regex
  | Alt regex regex
  | Plus regex
  | Group regex

fun ngroups :: "regex \<Rightarrow> nat" where
  "ngroups (Seq r1 r2) = ngroups r1 + ngroups r2"
| "ngroups (Alt r1 r2) = ngroups r1 + ngroups r2"
| "ngroups (Plus r) = ngroups r"
| "ngroups (Group r) = Suc (ngroups r)"
| "ngroups _ = 0"

definition is_digit :: "char \<Rightarrow> bool" where
  "is_digit c = (48 \<le> (of_char c :: nat) \<and> (of_char c :: nat) \<le> 57)"

definition is_line_terminator :: "char \<Rightarrow> bool" where
  "is_line_terminator c = (c = CHR 0x0A \<or> c = CHR 0x0D)"

text \<open>
  A matcher state is the input still to be read and the captures made so far
  (\<open>None\<close> is \<open>undefined\<close>). A matcher returns every way to continue, in the order in
  which a backtracking engine tries them.
\<close>

type_synonym mstate = "string \<times> string option list"

fun one_char :: "(char \<Rightarrow> bool) \<Rightarrow> mstate \<Rightarrow> mstate list" where
  "one_char p ([], caps) = []"
| "one_char p (c # cs, caps) = (if p c then [(cs, caps)] else [])"

text \<open>Entering an iteration of a quantifier clears the captures of the groups inside it.\<close>

definition reset_caps :: "nat \<Rightarrow> nat \<Rightarrow> mstate \<Rightarrow> mstate" where
  "reset_caps off n st =
     (fst st, take off (snd st) @ replicate (min n (length (snd st) - off)) None
              @ drop (off + n) (snd st))"

text \<open>
  Further iterations of a quantifier after the required ones: an iteration that reads
  nothing is rejected, more iterations are tried before stopping (greedy). The first
  argument bounds the number of iterations; the length of the input is enough, since
  each one reads a character.
\<close>

fun more_iters :: "(mstate \<Rightarrow> mstate list) \<Rightarrow> nat \<Rightarrow> mstate \<Rightarrow> mstate list" where
  "more_iters step 0 st = [st]"
| "more_iters step (Suc k) st =
     concat (map (\<lambda>st'. if length (fst st') < length (fst st)
                          then more_iters step k st' else [])
                 (step st)) @ [st]"

fun matcher :: "regex \<Rightarrow> nat \<Rightarrow> mstate \<Rightarrow> mstate list" where
  "matcher (Lit c) off st = one_char (\<lambda>x. x = c) st"
| "matcher Digit off st = one_char is_digit st"
| "matcher AnyChar off st = one_char (\<lambda>x. \<not> is_line_terminator x) st"
| "matcher EndAnchor off st = (if fst st = [] then [st] else [])"
| "matcher (Seq r1 r2) off st =
     concat (map (\<lambda>st'. matcher r2 (off + ngroups r1) st') (matcher r1 off st))"
| "matcher (Alt r1 r2) off st = matcher r1 off st @ matcher r2 (off + ngroups r1) st"
| "matcher (Plus r) off st =
     concat (map (\<lambda>st'. more_iters (\<lambda>x. matcher r off (reset_caps off (ngroups r) x))
                                     (length (fst st')) st')
                 (matcher r off (reset_caps off (ngroups r) st)))"
| "matcher (Group r) off st =
     map (\<lambda>st'. (fst st',
                 (snd st')[off := Some (take (length (fst st) - length (fst st')) (fst st))]))
         (matcher r (Suc off) st)"

text \<open>
  One attempt at a fixed start position: the array \<open>[matched text, group 1, ..., group n]\<close>
  of the first way to match.
\<close>

definition match_here :: "regex \<Rightarrow> string \<Rightarrow> string option list option" where
  "match_here r s =
     (case matcher r 0 (s, replicate (ngroups r) None) of
        [] \<Rightarrow> None
      | st # _ \<Rightarrow> Some (Some (take (length s - length (fst st)) s) # snd st))"

text \<open>
  \<open>String.prototype.match\<close> with a pattern without the global flag: the leftmost start
  position that matches, \<open>None\<close> for \<open>null\<close>.
\<close>

fun js_match :: "string \<Rightarrow> regex \<Rightarrow> string option list option" where
  "js_match [] r = match_here r []"
| "js_match (c # cs) r =
     (case match_here r (c # cs) of
        Some m \<Rightarrow> Some m
      | None \<Rightarrow> js_match cs r)"

subsection \<open>parseInt with radix 10\<close>

definition is_js_space :: "char \<Rightarrow> bool" where
  "is_js_space c = (c \<in> set [CHR 0x09, CHR 0x0A, CHR 0x0B, CHR 0x0C, CHR 0x0D, CHR 0x20, CHR 0xA0])"

definition digit_val :: "char \<Rightarrow> int" where
  "digit_val c = int (of_char c :: nat) - 48"

definition dec_value :: "string \<Rightarrow> int" where
  "dec_value ds = foldl (\<lambda>acc c. 10 * acc + digit_val c) 0 ds"

definition parse_digits :: "int \<Rightarrow> string \<Rightarrow> jsnum" where
  "parse_digits sign s =
     (let ds = takeWhile is_digit s in
      if ds = [] then NaN
      else if dec_value ds = 0 \<and> sign < 0 then NegZero
      else if dec_value ds \<le> 2 ^ 53 then Num (sign * dec_value ds)
      else Rounded (sign * dec_value ds))"

definition parseInt_str :: "string \<Rightarrow> jsnum" where
  "parseInt_str s =
     (case dropWhile is_js_space s of
        [] \<Rightarrow> NaN
      | c # cs \<Rightarrow>
          if c = CHR ''-'' then parse_digits (- 1) cs
          else if c = CHR ''+'' then parse_digits 1 cs
          else parse_digits 1 (c # cs))"

text \<open>
  The argument is converted to a string first: \<open>undefined\<close> becomes the text
  "undefined", which has no digits.
\<close>

definition parseInt :: "string option \<Rightarrow> jsnum" where
  "parseInt v = (case v of None \<Rightarrow> parseInt_str ''undefined'' | Some s \<Rightarrow> parseInt_str s)"

text \<open>Reading an array element: an index past the end reads \<open>undefined\<close>.\<close>

definition array_get :: "string option list \<Rightarrow> nat \<Rightarrow> string option" where
  "array_get xs i = (if i < length xs then xs ! i else None)"

section \<open>extractVersion\<close>

definition extractVersion :: "string \<Rightarrow> regex \<Rightarrow> nat \<Rightarrow> jsnum option" where
  "extractVersion uastring expr pos =
     (case js_match uastring expr of
        Some m \<Rightarrow> if length m \<ge> pos then Some (parseInt (array_get m pos)) else None
      | None \<Rightarrow> None)"

text \<open>The pattern literals of the source.\<close>

definition lits :: "string \<Rightarrow> regex \<Rightarrow> regex" where
  "lits s r = foldr (\<lambda>c acc. Seq (Lit c) acc) s r"

definition re_firefox :: regex where
  "re_firefox = lits ''Firefox/'' (Seq (Group (Plus Digit)) (Lit CHR ''.''))"

definition re_chrome :: regex where
  "re_chrome =
     lits ''Chrom'' (Seq (Group (Alt (Lit CHR ''e'') (lits ''iu'' (Lit CHR ''m''))))
       (Seq (Lit CHR ''/'') (Seq (Group (Plus Digit)) (Lit CHR ''.''))))"

definition re_edge :: regex where
  "re_edge =
     lits ''Edge/'' (Seq (Group (Plus Digit)) (Seq AnyChar (Seq (Group (Plus Digit)) EndAnchor)))"

definition re_safari :: regex where
  "re_safari = lits ''AppleWebKit/'' (Seq (Group (Plus Digit)) (Lit CHR ''.''))"

section \<open>The runtime context\<close>

text \<open>
  A function object of the application is named by a number and carries its source
  text, which is what the conversion to a property key yields. The arrow function that
  the patched \<open>addEventListener\<close> creates is a fresh object each time (numbered by the
  allocation counter of the instance model) and closes over \<open>cb\<close> and \<open>wrapper\<close>.
\<close>

datatype appfn = AppFn nat string

datatype 'e callback =
    App appfn
  | Wrapped nat "'e callback" "'e \<Rightarrow> 'e"

text \<open>
  The methods found on the prototype: the runtime's own, or a function installed by
  \<open>wrapPeerConnectionEvent\<close>, which closes over \<open>eventNameToWrap\<close>, \<open>wrapper\<close> and the
  method it replaced.
\<close>

datatype 'e add_method =
    NativeAdd
  | PatchedAdd string "'e \<Rightarrow> 'e" "'e add_method"

datatype remove_method =
    NativeRemove
  | PatchedRemove string remove_method

text \<open>
  \<open>accessors\<close> lists the properties defined by \<open>Object.defineProperty\<close>: the property
  name, and the \<open>eventNameToWrap\<close> its getter and setter close over.
\<close>

record 'e rtc_proto =
  addEventListener_m :: "'e add_method"
  removeEventListener_m :: remove_method
  accessors :: "(string \<times> string) list"

text \<open>The capability markers are modelled by their truthiness.\<close>

record navigator =
  userAgent :: string
  mozGetUserMedia :: bool
  webkitGetUserMedia :: bool
  mediaDevices :: bool

text \<open>
  \<open>RTCPeerConnection\<close> is the constructor, given by its prototype; \<open>None\<close> is a
  falsy property.
\<close>

record 'e window =
  navigator :: "navigator option"
  RTCPeerConnection :: "'e rtc_proto option"

datatype 'e window_arg = WUndefined | WNull | WObject "'e window"

section \<open>detectBrowser\<close>

record BrowserResult =
  browser :: "string option"
  version :: "jsnum option"

text \<open>
  \<open>window && window.navigator\<close> reads no property of a falsy window. The test
  \<open>typeof window === "undefined" || !window.navigator\<close> returns early for
  \<open>undefined\<close>; for every other value it reads \<open>window.navigator\<close>, which throws a
  TypeError when the window is \<open>null\<close> (\<open>typeof null\<close> is "object").
\<close>

definition detectBrowser :: "'e window_arg \<Rightarrow> js_error + BrowserResult" where
  "detectBrowser window =
     (let result = \<lparr>browser = None, version = None\<rparr> in
      case window of
        WUndefined \<Rightarrow> Inr (result\<lparr>browser := Some ''Not a browser.''\<rparr>)
      | WNull \<Rightarrow> Inl TypeError
      | WObject w \<Rightarrow>
          (case navigator w of
             None \<Rightarrow> Inr (result\<lparr>browser := Some ''Not a browser.''\<rparr>)
           | Some nav \<Rightarrow>
               if mozGetUserMedia nav then
                 Inr (result\<lparr>browser := Some ''firefox'',
                             version := extractVersion (userAgent nav) re_firefox 1\<rparr>)
               else if webkitGetUserMedia nav then
                 Inr (result\<lparr>browser := Some ''chrome'',
                             version := extractVersion (userAgent nav) re_chrome 2\<rparr>)
               else if mediaDevices nav \<and> js_match (userAgent nav) re_edge \<noteq> None then
                 Inr (result\<lparr>browser := Some ''edge'',
                             version := extractVersion (userAgent nav) re_edge 2\<rparr>)
               else if \<not> Option.is_none (RTCPeerConnection w)
                       \<and> js_match (userAgent nav) re_safari \<noteq> None then
                 Inr (result\<lparr>browser := Some ''safari'',
                             version := extractVersion (userAgent nav) re_safari 1\<rparr>)
               else Inr (result\<lparr>browser := Some ''Not a supported browser.''\<rparr>)))"

section \<open>Process flags, disableLog, disableWarnings, deprecated\<close>

datatype jsval =
    JUndefined
  | JNull
  | JBool bool
  | JNumber jsnum
  | JString string
  | JBigInt int
  | JSymbol
  | JObject
  | JFunction

fun typeof :: "jsval \<Rightarrow> string" where
  "typeof JUndefined = ''undefined''"
| "typeof JNull = ''object''"
| "typeof (JBool b) = ''boolean''"
| "typeof (JNumber n) = ''number''"
| "typeof (JString s) = ''string''"
| "typeof (JBigInt n) = ''bigint''"
| "typeof JSymbol = ''symbol''"
| "typeof JObject = ''object''"
| "typeof JFunction = ''function''"

text \<open>The value of a condition; a boolean is its own value.\<close>

fun truthy :: "jsval \<Rightarrow> bool" where
  "truthy JUndefined = False"
| "truthy JNull = False"
| "truthy (JBool b) = b"
| "truthy (JNumber n) = (n \<noteq> NaN \<and> n \<noteq> Num 0 \<and> n \<noteq> NegZero)"
| "truthy (JString s) = (s \<noteq> [])"
| "truthy (JBigInt n) = (n \<noteq> 0)"
| "truthy JSymbol = True"
| "truthy JObject = True"
| "truthy JFunction = True"

text \<open>
  The two module variables (the source's names end in an underscore), and the
  messages written with \<open>console.warn\<close> so far. \<open>deprecated\<close> calls \<open>console.warn\<close>
  without a test, so the console is taken to exist.
\<close>

record process =
  logDisabled :: bool
  deprecationWarnings :: bool
  console_warn :: "string list"

definition initial_process :: process where
  "initial_process = \<lparr>logDisabled = True, deprecationWarnings = True, console_warn = []\<rparr>"

text \<open>What a setter returns: an \<open>Error\<close> object with its message, or a string.\<close>

datatype returned = ErrorObject string | Text string

definition disableLog :: "jsval \<Rightarrow> process \<Rightarrow> returned \<times> process" where
  "disableLog bool p =
     (if typeof bool \<noteq> ''boolean''
      then (ErrorObject (''Argument type: '' @ typeof bool @ ''. Please use a boolean.''), p)
      else (Text (if truthy bool then ''adapter.js logging disabled''
                  else ''adapter.js logging enabled''),
            p\<lparr>logDisabled := truthy bool\<rparr>))"

definition disableWarnings :: "jsval \<Rightarrow> process \<Rightarrow> returned \<times> process" where
  "disableWarnings bool p =
     (if typeof bool \<noteq> ''boolean''
      then (ErrorObject (''Argument type: '' @ typeof bool @ ''. Please use a boolean.''), p)
      else (Text (''adapter.js deprecation warnings ''
                  @ (if truthy bool then ''disabled'' else ''enabled'')),
            p\<lparr>deprecationWarnings := \<not> truthy bool\<rparr>))"

definition deprecated :: "string \<Rightarrow> string \<Rightarrow> process \<Rightarrow> process" where
  "deprecated oldMethod newMethod p =
     (if \<not> deprecationWarnings p then p
      else p\<lparr>console_warn := console_warn p
             @ [oldMethod @ '' is deprecated, please use '' @ newMethod @ '' instead.'']\<rparr>)"

section \<open>Peer-connection instances\<close>

text \<open>
  An instance has the event listener list of the runtime (event type and callback, in
  registration order), the object \<open>this._eventMap\<close> (\<open>None\<close> while the property is
  unset; its keys are strings), the own properties \<open>_on<event>\<close>, and the counter that
  numbers the function objects created on its behalf.
\<close>

record 'e peer_connection =
  listeners :: "(string \<times> 'e callback) list"
  eventMap :: "(string \<times> 'e callback) list option"
  own_props :: "(string \<times> 'e callback) list"
  next_ref :: nat

definition new_instance :: "'e peer_connection" where
  "new_instance = \<lparr>listeners = [], eventMap = None, own_props = [], next_ref = 0\<rparr>"

text \<open>
  A function used as a property key is converted to its source text; every arrow
  function made by the patched \<open>addEventListener\<close> has the same text.
\<close>

definition wrapped_source :: string where
  "wrapped_source = ''(e) => { cb(wrapper(e)); }''"

fun toString :: "'e callback \<Rightarrow> string" where
  "toString (App (AppFn i src)) = src"
| "toString (Wrapped k cb wrapper) = wrapped_source"

subsection \<open>The runtime's event target\<close>

text \<open>
  The runtime appends a listener unless the same type and callback are registered
  already, and removes the listener with that type and callback. Dispatch calls the
  listeners of the event's type in order.
\<close>

definition native_add :: "string \<Rightarrow> 'e callback \<Rightarrow> 'e peer_connection \<Rightarrow> 'e peer_connection" where
  "native_add n cb this =
     this\<lparr>listeners := (if (n, cb) \<in> set (listeners this) then listeners this
                        else listeners this @ [(n, cb)])\<rparr>"

definition native_remove :: "string \<Rightarrow> 'e callback \<Rightarrow> 'e peer_connection \<Rightarrow> 'e peer_connection" where
  "native_remove n cb this = this\<lparr>listeners := remove1 (n, cb) (listeners this)\<rparr>"

text \<open>
  Calling a callback with an event ends in one call of an application function:
  \<open>(e) => { cb(wrapper(e)); }\<close> passes the transformed event on.
\<close>

fun invoke :: "'e callback \<Rightarrow> 'e \<Rightarrow> appfn \<times> 'e" where
  "invoke (App f) e = (f, e)"
| "invoke (Wrapped k cb wrapper) e = invoke cb (wrapper e)"

fun calls :: "'e callback \<Rightarrow> appfn" where
  "calls (App f) = f"
| "calls (Wrapped k cb wrapper) = calls cb"

definition dispatchEvent :: "'e peer_connection \<Rightarrow> string \<Rightarrow> 'e \<Rightarrow> (appfn \<times> 'e) list" where
  "dispatchEvent this n e =
     map (\<lambda>l. invoke (snd l) e) (filter (\<lambda>l. fst l = n) (listeners this))"

section \<open>wrapPeerConnectionEvent\<close>

subsection \<open>The patched methods\<close>

fun call_add :: "'e add_method \<Rightarrow> string \<Rightarrow> 'e callback \<Rightarrow> 'e peer_connection \<Rightarrow> 'e peer_connection" where
  "call_add NativeAdd nativeEventName cb this = native_add nativeEventName cb this"
| "call_add (PatchedAdd eventNameToWrap wrapper nativeAddEventListener) nativeEventName cb this =
     (if nativeEventName \<noteq> eventNameToWrap
      then call_add nativeAddEventListener nativeEventName cb this
      else
        let wrappedCallback = Wrapped (next_ref this) cb wrapper;
            m = (case eventMap this of None \<Rightarrow> [] | Some m \<Rightarrow> m);
            this' = this\<lparr>eventMap := Some (AList.update (toString cb) wrappedCallback m),
                         next_ref := Suc (next_ref this)\<rparr>
        in call_add nativeAddEventListener nativeEventName wrappedCallback this')"

fun call_remove :: "remove_method \<Rightarrow> string \<Rightarrow> 'e callback \<Rightarrow> 'e peer_connection \<Rightarrow> 'e peer_connection" where
  "call_remove NativeRemove nativeEventName cb this = native_remove nativeEventName cb this"
| "call_remove (PatchedRemove eventNameToWrap nativeRemoveEventListener) nativeEventName cb this =
     (if nativeEventName \<noteq> eventNameToWrap
      then call_remove nativeRemoveEventListener nativeEventName cb this
      else
        case eventMap this of
          None \<Rightarrow> call_remove nativeRemoveEventListener nativeEventName cb this
        | Some m \<Rightarrow>
            (case map_of m (toString cb) of
               None \<Rightarrow> call_remove nativeRemoveEventListener nativeEventName cb this
             | Some unwrappedCb \<Rightarrow>
                 call_remove nativeRemoveEventListener nativeEventName unwrappedCb
                   (this\<lparr>eventMap := Some (AList.delete (toString cb) m)\<rparr>)))"

text \<open>A method call on an instance finds the method on the prototype.\<close>

definition addEventListener ::
  "'e rtc_proto \<Rightarrow> string \<Rightarrow> 'e callback \<Rightarrow> 'e peer_connection \<Rightarrow> 'e peer_connection" where
  "addEventListener proto = call_add (addEventListener_m proto)"

definition removeEventListener ::
  "'e rtc_proto \<Rightarrow> string \<Rightarrow> 'e callback \<Rightarrow> 'e peer_connection \<Rightarrow> 'e peer_connection" where
  "removeEventListener proto = call_remove (removeEventListener_m proto)"

subsection \<open>The accessor pair of the property on<event>\<close>

definition on_get :: "string \<Rightarrow> 'e peer_connection \<Rightarrow> 'e callback option" where
  "on_get eventNameToWrap this = map_of (own_props this) (''_on'' @ eventNameToWrap)"

definition on_set ::
  "string \<Rightarrow> 'e rtc_proto \<Rightarrow> 'e callback option \<Rightarrow> 'e peer_connection \<Rightarrow> 'e peer_connection" where
  "on_set eventNameToWrap proto cb this =
     (let this1 =
        (case map_of (own_props this) (''_on'' @ eventNameToWrap) of
           Some old \<Rightarrow>
             (let r = removeEventListener proto eventNameToWrap old this
              in r\<lparr>own_props := AList.delete (''_on'' @ eventNameToWrap) (own_props r)\<rparr>)
         | None \<Rightarrow> this)
      in case cb of
           Some c \<Rightarrow>
             addEventListener proto eventNameToWrap c
               (this1\<lparr>own_props := AList.update (''_on'' @ eventNameToWrap) c (own_props this1)\<rparr>)
         | None \<Rightarrow> this1)"

subsection \<open>Patching the prototype\<close>

text \<open>
  The function reads \<open>window.RTCPeerConnection\<close> first, which throws for a window that
  is \<open>null\<close> or \<open>undefined\<close>. The result is the window with its prototype as the call
  leaves it.
\<close>

definition wrapPeerConnectionEvent ::
  "'e window_arg \<Rightarrow> string \<Rightarrow> ('e \<Rightarrow> 'e) \<Rightarrow> js_error + 'e window" where
  "wrapPeerConnectionEvent window eventNameToWrap wrapper =
     (case window of
        WUndefined \<Rightarrow> Inl TypeError
      | WNull \<Rightarrow> Inl TypeError
      | WObject w \<Rightarrow>
          (case RTCPeerConnection w of
             None \<Rightarrow> Inr w
           | Some proto \<Rightarrow>
               Inr (w\<lparr>RTCPeerConnection := Some
                 (proto\<lparr>addEventListener_m :=
                          PatchedAdd eventNameToWrap wrapper (addEventListener_m proto),
                        removeEventListener_m :=
                          PatchedRemove eventNameToWrap (removeEventListener_m proto),
                        accessors :=
                          AList.update (''on'' @ eventNameToWrap) eventNameToWrap
                            (accessors proto)\<rparr>)\<rparr>)))"

subsection \<open>Auxiliary notions for the statements\<close>

text \<open>The event names that a method already wraps.\<close>

fun add_wraps :: "'e add_method \<Rightarrow> string set" where
  "add_wraps NativeAdd = {}"
| "add_wraps (PatchedAdd ev wrapper orig) = insert ev (add_wraps orig)"

fun remove_wraps :: "remove_method \<Rightarrow> string set" where
  "remove_wraps NativeRemove = {}"
| "remove_wraps (PatchedRemove ev orig) = insert ev (remove_wraps orig)"

definition proto_wraps :: "'e rtc_proto \<Rightarrow> string set" where
  "proto_wraps proto = add_wraps (addEventListener_m proto) \<union> remove_wraps (removeEventListener_m proto)"

text \<open>
  The function objects that an instance holds were allocated before: the number of a
  registered arrow function is below the counter.
\<close>

fun allocated :: "nat \<Rightarrow> 'e callback \<Rightarrow> bool" where
  "allocated n (App f) = True"
| "allocated n (Wrapped k cb wrapper) = (k < n)"

definition wf_instance :: "'e peer_connection \<Rightarrow> bool" where
  "wf_instance this = (\<forall>l \<in> set (listeners this). allocated (next_ref this) (snd l))"

text \<open>An application function is registered for an event type when some listener of that type ends up calling it.\<close>

definition registered :: "'e peer_connection \<Rightarrow> string \<Rightarrow> appfn \<Rightarrow> bool" where
  "registered this n f = (\<exists>l \<in> set (listeners this). fst l = n \<and> calls (snd l) = f)"

definition calls_of :: "appfn \<Rightarrow> (appfn \<times> 'e) list \<Rightarrow> (appfn \<times> 'e) list" where
  "calls_of f log = filter (\<lambda>c. fst c = f) log"

text \<open>The contents of \<open>this._eventMap\<close>, empty while the property is unset.\<close>

definition entries :: "'e peer_connection \<Rightarrow> (string \<times> 'e callback) list" where
  "entries this = (case eventMap this of None \<Rightarrow> [] | Some m \<Rightarrow> m)"

text \<open>
  What an application does to an instance: it registers and unregisters its functions,
  and assigns one of them, or \<open>null\<close>, to a property on<event> that
  \<open>wrapPeerConnectionEvent\<close> has defined.
\<close>

datatype op =
    AddListener string appfn
  | RemoveListener string appfn
  | AssignHandler string "appfn option"

fun step :: "'e rtc_proto \<Rightarrow> op \<Rightarrow> 'e peer_connection \<Rightarrow> 'e peer_connection" where
  "step proto (AddListener n f) this = addEventListener proto n (App f) this"
| "step proto (RemoveListener n f) this = removeEventListener proto n (App f) this"
| "step proto (AssignHandler ev v) this = on_set ev proto (map_option App v) this"

definition run :: "'e rtc_proto \<Rightarrow> op list \<Rightarrow> 'e peer_connection \<Rightarrow> 'e peer_connection" where
  "run proto ops this = foldl (\<lambda>s x. step proto x s) this ops"

fun op_ok :: "'e rtc_proto \<Rightarrow> op \<Rightarrow> bool" where
  "op_ok proto (AssignHandler ev v) = (map_of (accessors proto) (''on'' @ ev) = Some ev)"
| "op_ok proto _ = True"


text \<open>
  \<open>wrapPeerConnectionEvent\<close> replaces both methods at once, so on a prototype that
  it has patched any number of times the remove method mirrors the add method, layer by
  layer.
\<close>

fun remove_of :: "'e add_method \<Rightarrow> remove_method" where
  "remove_of NativeAdd = NativeRemove"
| "remove_of (PatchedAdd ev wrapper orig) = PatchedRemove ev (remove_of orig)"

definition paired :: "'e rtc_proto \<Rightarrow> bool" where
  "paired proto = (removeEventListener_m proto = remove_of (addEventListener_m proto))"



text \<open>The prototype as the runtime provides it.\<close>

definition native_proto :: "'e rtc_proto" where
  "native_proto =
     \<lparr>addEventListener_m = NativeAdd, removeEventListener_m = NativeRemove, accessors = []\<rparr>"

section \<open>Properties of extractVersion\<close>

lemma extractVersion_example:
  "extractVersion ''Firefox/91.0'' re_firefox 1 = Some (Num 91)"
  by code_simp

lemma extractVersion_no_match:
  "js_match uastring expr = None \<Longrightarrow> extractVersion uastring expr pos = None"
  by (simp add: extractVersion_def)

lemma extractVersion_short:
  "js_match uastring expr = Some m \<Longrightarrow> length m < pos \<Longrightarrow>
   extractVersion uastring expr pos = None"
  by (simp add: extractVersion_def)

lemma extractVersion_parse:
  "js_match uastring expr = Some m \<Longrightarrow> pos < length m \<Longrightarrow>
   extractVersion uastring expr pos = Some (parseInt (m ! pos))"
  by (simp add: extractVersion_def array_get_def)

text \<open>
  C1: \<open>extractVersion\<close> is to return absent when the match has fewer captured groups
  than \<open>pos\<close>. The guard compares \<open>pos\<close> with the length of the match array, which
  counts the matched text as well: the pattern \<open>Firefox/(\d+)\.\<close> has one group, the match
  array of "Firefox/91.0" has two elements, and with \<open>pos = 2\<close> the function reads past
  the array and returns NaN instead of absent.
\<close>

theorem extractVersion_group_count_guard:
  "js_match ''Firefox/91.0'' re_firefox = Some [Some ''Firefox/91.'', Some ''91'']
   \<and> ngroups re_firefox = 1
   \<and> extractVersion ''Firefox/91.0'' re_firefox 2 = Some NaN"
  by code_simp

section \<open>Properties of detectBrowser\<close>

lemma detectBrowser_returns:
  "window \<noteq> WNull \<Longrightarrow> \<exists>r. detectBrowser window = Inr r"
  by (cases window) (auto simp: detectBrowser_def Let_def split: option.splits)

lemma detectBrowser_not_a_browser:
  "detectBrowser WUndefined = Inr \<lparr>browser = Some ''Not a browser.'', version = None\<rparr>"
  "navigator w = None \<Longrightarrow>
   detectBrowser (WObject w) = Inr \<lparr>browser = Some ''Not a browser.'', version = None\<rparr>"
  by (simp_all add: detectBrowser_def)

text \<open>
  C2: \<open>detectBrowser\<close> is to return a record for every input, and "Not a browser." when
  the runtime context is absent. For the absent context \<open>null\<close> it throws a TypeError
  instead: the early return tests \<open>typeof window === "undefined"\<close>, which is false for
  \<open>null\<close>, and then reads \<open>window.navigator\<close>.
\<close>

theorem detectBrowser_null_window:
  "detectBrowser WNull = Inl TypeError"
  by (simp add: detectBrowser_def)

text \<open>
  C3: with a navigator present, the branches of \<open>detectBrowser\<close> are taken in order and
  the first that applies decides: \<open>mozGetUserMedia\<close> gives "firefox" whatever else is
  set, then \<open>webkitGetUserMedia\<close> gives "chrome", then \<open>mediaDevices\<close> with a user agent
  matching the Edge pattern gives "edge", then a peer-connection constructor with a user
  agent matching the AppleWebKit pattern gives "safari", and otherwise the result is
  "Not a supported browser." without a version. The version is what \<open>extractVersion\<close>
  finds with the branch's pattern and group.
\<close>

theorem detectBrowser_branch_order:
  assumes "navigator w = Some nav"
  shows "(mozGetUserMedia nav \<longrightarrow>
            detectBrowser (WObject w) =
              Inr \<lparr>browser = Some ''firefox'',
                   version = extractVersion (userAgent nav) re_firefox 1\<rparr>)
       \<and> (\<not> mozGetUserMedia nav \<and> webkitGetUserMedia nav \<longrightarrow>
            detectBrowser (WObject w) =
              Inr \<lparr>browser = Some ''chrome'',
                   version = extractVersion (userAgent nav) re_chrome 2\<rparr>)
       \<and> (\<not> mozGetUserMedia nav \<and> \<not> webkitGetUserMedia nav
            \<and> mediaDevices nav \<and> js_match (userAgent nav) re_edge \<noteq> None \<longrightarrow>
            detectBrowser (WObject w) =
              Inr \<lparr>browser = Some ''edge'',
                   version = extractVersion (userAgent nav) re_edge 2\<rparr>)
       \<and> (\<not> mozGetUserMedia nav \<and> \<not> webkitGetUserMedia nav
            \<and> \<not> (mediaDevices nav \<and> js_match (userAgent nav) re_edge \<noteq> None)
            \<and> RTCPeerConnection w \<noteq> None \<and> js_match (userAgent nav) re_safari \<noteq> None \<longrightarrow>
            detectBrowser (WObject w) =
              Inr \<lparr>browser = Some ''safari'',
                   version = extractVersion (userAgent nav) re_safari 1\<rparr>)
       \<and> (\<not> mozGetUserMedia nav \<and> \<not> webkitGetUserMedia nav
            \<and> \<not> (mediaDevices nav \<and> js_match (userAgent nav) re_edge \<noteq> None)
            \<and> \<not> (RTCPeerConnection w \<noteq> None \<and> js_match (userAgent nav) re_safari \<noteq> None) \<longrightarrow>
            detectBrowser (WObject w) =
              Inr \<lparr>browser = Some ''Not a supported browser.'', version = None\<rparr>)"
  using assms by (simp add: detectBrowser_def Let_def Option.is_none_def)

theorem detectBrowser_branch_order_witness:
  "detectBrowser (WObject
      \<lparr>navigator = Some \<lparr>userAgent = ''Mozilla/5.0 (X11; rv:91.0) Gecko/20100101 Firefox/91.0'',
                          mozGetUserMedia = True, webkitGetUserMedia = True, mediaDevices = True\<rparr>,
       RTCPeerConnection = Some (native_proto :: nat rtc_proto)\<rparr>)
     = Inr \<lparr>browser = Some ''firefox'', version = Some (Num 91)\<rparr>
   \<and> detectBrowser (WObject
      \<lparr>navigator = Some \<lparr>userAgent = ''Mozilla/5.0 AppleWebKit/537.36 Chrome/96.0.4664.45 Safari/537.36'',
                          mozGetUserMedia = False, webkitGetUserMedia = True, mediaDevices = True\<rparr>,
       RTCPeerConnection = Some (native_proto :: nat rtc_proto)\<rparr>)
     = Inr \<lparr>browser = Some ''chrome'', version = Some (Num 96)\<rparr>
   \<and> detectBrowser (WObject
      \<lparr>navigator = Some \<lparr>userAgent = ''Mozilla/5.0 AppleWebKit/537.36 Chrome/52.0.2743.116 Safari/537.36 Edge/15.15063'',
                          mozGetUserMedia = False, webkitGetUserMedia = False, mediaDevices = True\<rparr>,
       RTCPeerConnection = Some (native_proto :: nat rtc_proto)\<rparr>)
     = Inr \<lparr>browser = Some ''edge'', version = Some (Num 15063)\<rparr>
   \<and> detectBrowser (WObject
      \<lparr>navigator = Some \<lparr>userAgent = ''Mozilla/5.0 AppleWebKit/605.1.15 Version/13.0 Safari/605.1.15'',
                          mozGetUserMedia = False, webkitGetUserMedia = False, mediaDevices = True\<rparr>,
       RTCPeerConnection = Some (native_proto :: nat rtc_proto)\<rparr>)
     = Inr \<lparr>browser = Some ''safari'', version = Some (Num 605)\<rparr>
   \<and> detectBrowser (WObject
      \<lparr>navigator = Some \<lparr>userAgent = ''Mozilla/5.0 AppleWebKit/605.1.15 Version/13.0 Safari/605.1.15'',
                          mozGetUserMedia = False, webkitGetUserMedia = False, mediaDevices = True\<rparr>,
       RTCPeerConnection = (None :: nat rtc_proto option)\<rparr>)
     = Inr \<lparr>browser = Some ''Not a supported browser.'', version = None\<rparr>"
proof -
  have ff: "extractVersion ''Mozilla/5.0 (X11; rv:91.0) Gecko/20100101 Firefox/91.0'' re_firefox 1
              = Some (Num 91)"
    by code_simp
  have ch: "extractVersion ''Mozilla/5.0 AppleWebKit/537.36 Chrome/96.0.4664.45 Safari/537.36'' re_chrome 2
              = Some (Num 96)"
    by code_simp
  have ed: "js_match ''Mozilla/5.0 AppleWebKit/537.36 Chrome/52.0.2743.116 Safari/537.36 Edge/15.15063'' re_edge
              \<noteq> None"
    "extractVersion ''Mozilla/5.0 AppleWebKit/537.36 Chrome/52.0.2743.116 Safari/537.36 Edge/15.15063'' re_edge 2
              = Some (Num 15063)"
    by code_simp+
  have sa: "js_match ''Mozilla/5.0 AppleWebKit/605.1.15 Version/13.0 Safari/605.1.15'' re_edge = None"
    "js_match ''Mozilla/5.0 AppleWebKit/605.1.15 Version/13.0 Safari/605.1.15'' re_safari \<noteq> None"
    "extractVersion ''Mozilla/5.0 AppleWebKit/605.1.15 Version/13.0 Safari/605.1.15'' re_safari 1
              = Some (Num 605)"
    by code_simp+
  show ?thesis
    using
      detectBrowser_branch_order [of
        "\<lparr>navigator = Some \<lparr>userAgent = ''Mozilla/5.0 (X11; rv:91.0) Gecko/20100101 Firefox/91.0'',
                          mozGetUserMedia = True, webkitGetUserMedia = True, mediaDevices = True\<rparr>,
         RTCPeerConnection = Some (native_proto :: nat rtc_proto)\<rparr>"
        "\<lparr>userAgent = ''Mozilla/5.0 (X11; rv:91.0) Gecko/20100101 Firefox/91.0'',
                          mozGetUserMedia = True, webkitGetUserMedia = True, mediaDevices = True\<rparr>"]
      detectBrowser_branch_order [of
        "\<lparr>navigator = Some \<lparr>userAgent = ''Mozilla/5.0 AppleWebKit/537.36 Chrome/96.0.4664.45 Safari/537.36'',
                          mozGetUserMedia = False, webkitGetUserMedia = True, mediaDevices = True\<rparr>,
         RTCPeerConnection = Some (native_proto :: nat rtc_proto)\<rparr>"
        "\<lparr>userAgent = ''Mozilla/5.0 AppleWebKit/537.36 Chrome/96.0.4664.45 Safari/537.36'',
                          mozGetUserMedia = False, webkitGetUserMedia = True, mediaDevices = True\<rparr>"]
      detectBrowser_branch_order [of
        "\<lparr>navigator = Some \<lparr>userAgent = ''Mozilla/5.0 AppleWebKit/537.36 Chrome/52.0.2743.116 Safari/537.36 Edge/15.15063'',
                          mozGetUserMedia = False, webkitGetUserMedia = False, mediaDevices = True\<rparr>,
         RTCPeerConnection = Some (native_proto :: nat rtc_proto)\<rparr>"
        "\<lparr>userAgent = ''Mozilla/5.0 AppleWebKit/537.36 Chrome/52.0.2743.116 Safari/537.36 Edge/15.15063'',
                          mozGetUserMedia = False, webkitGetUserMedia = False, mediaDevices = True\<rparr>"]
      detectBrowser_branch_order [of
        "\<lparr>navigator = Some \<lparr>userAgent = ''Mozilla/5.0 AppleWebKit/605.1.15 Version/13.0 Safari/605.1.15'',
                          mozGetUserMedia = False, webkitGetUserMedia = False, mediaDevices = True\<rparr>,
         RTCPeerConnection = Some (native_proto :: nat rtc_proto)\<rparr>"
        "\<lparr>userAgent = ''Mozilla/5.0 AppleWebKit/605.1.15 Version/13.0 Safari/605.1.15'',
                          mozGetUserMedia = False, webkitGetUserMedia = False, mediaDevices = True\<rparr>"]
      detectBrowser_branch_order [of
        "\<lparr>navigator = Some \<lparr>userAgent = ''Mozilla/5.0 AppleWebKit/605.1.15 Version/13.0 Safari/605.1.15'',
                          mozGetUserMedia = False, webkitGetUserMedia = False, mediaDevices = True\<rparr>,
         RTCPeerConnection = (None :: nat rtc_proto option)\<rparr>"
        "\<lparr>userAgent = ''Mozilla/5.0 AppleWebKit/605.1.15 Version/13.0 Safari/605.1.15'',
                          mozGetUserMedia = False, webkitGetUserMedia = False, mediaDevices = True\<rparr>"]
      ff ch ed sa
    by simp
qed

section \<open>Properties of the process flags\<close>

text \<open>
  C7: for an argument that is not a boolean, \<open>disableLog\<close> and \<open>disableWarnings\<close>
  return an \<open>Error\<close> object whose message names the type received, and leave the
  module variables as they were.
\<close>

theorem setters_reject_non_boolean:
  assumes "typeof v \<noteq> ''boolean''"
  shows "disableLog v p =
           (ErrorObject (''Argument type: '' @ typeof v @ ''. Please use a boolean.''), p)
       \<and> disableWarnings v p =
           (ErrorObject (''Argument type: '' @ typeof v @ ''. Please use a boolean.''), p)"
  using assms by (simp add: disableLog_def disableWarnings_def)

theorem setters_reject_non_boolean_witness:
  "typeof (JString ''true'') \<noteq> ''boolean''
   \<and> disableLog (JString ''true'') initial_process =
       (ErrorObject ''Argument type: string. Please use a boolean.'', initial_process)
   \<and> disableWarnings (JString ''true'') initial_process =
       (ErrorObject ''Argument type: string. Please use a boolean.'', initial_process)"
  using setters_reject_non_boolean [of "JString ''true''" initial_process] by simp

text \<open>
  C8: \<open>disableWarnings\<close> with a boolean stores its negation in the warnings flag and
  changes nothing else. While the flag is off, \<open>deprecated\<close> does nothing; while it is
  on, each call writes the one message
  "<oldMethod> is deprecated, please use <newMethod> instead." to \<open>console.warn\<close>.
\<close>

theorem warnings_flag_and_deprecated:
  "snd (disableWarnings (JBool b) p) = p\<lparr>deprecationWarnings := \<not> b\<rparr>
   \<and> (\<not> deprecationWarnings q \<longrightarrow> deprecated oldMethod newMethod q = q)
   \<and> (deprecationWarnings q \<longrightarrow>
        deprecated oldMethod newMethod q =
          q\<lparr>console_warn := console_warn q
               @ [oldMethod @ '' is deprecated, please use '' @ newMethod @ '' instead.'']\<rparr>)"
  by (simp add: disableWarnings_def deprecated_def)

theorem warnings_flag_and_deprecated_witness:
  "snd (disableWarnings (JBool True) initial_process)
     = initial_process\<lparr>deprecationWarnings := False\<rparr>
   \<and> deprecated ''getStats'' ''getReport'' (initial_process\<lparr>deprecationWarnings := False\<rparr>)
     = initial_process\<lparr>deprecationWarnings := False\<rparr>
   \<and> console_warn (deprecated ''getStats'' ''getReport'' initial_process)
     = [''getStats is deprecated, please use getReport instead.'']"
  using
    warnings_flag_and_deprecated [of True initial_process
      "initial_process\<lparr>deprecationWarnings := False\<rparr>" "''getStats''" "''getReport''"]
    warnings_flag_and_deprecated [of True initial_process
      initial_process "''getStats''" "''getReport''"]
  by (simp add: initial_process_def)

section \<open>Properties of wrapPeerConnectionEvent\<close>

text \<open>
  C9: on a window without a peer-connection constructor, \<open>wrapPeerConnectionEvent\<close>
  returns normally and leaves the window, and so every prototype reachable from it, as
  it was.
\<close>

theorem wrap_without_constructor:
  assumes "RTCPeerConnection w = None"
  shows "wrapPeerConnectionEvent (WObject w) eventNameToWrap wrapper = Inr w"
  using assms by (simp add: wrapPeerConnectionEvent_def)

theorem wrap_without_constructor_witness:
  "RTCPeerConnection \<lparr>navigator = None, RTCPeerConnection = (None :: nat rtc_proto option)\<rparr> = None
   \<and> wrapPeerConnectionEvent
        (WObject \<lparr>navigator = None, RTCPeerConnection = (None :: nat rtc_proto option)\<rparr>)
        ''track'' Suc
     = Inr \<lparr>navigator = None, RTCPeerConnection = None\<rparr>"
  using wrap_without_constructor
    [of "\<lparr>navigator = None, RTCPeerConnection = (None :: nat rtc_proto option)\<rparr>" "''track''" Suc]
  by simp

subsection \<open>What the patched methods do\<close>

lemma call_add_passthrough:
  "n \<notin> add_wraps m \<Longrightarrow> call_add m n cb this = native_add n cb this"
  by (induction m) auto

lemma call_remove_passthrough:
  "n \<notin> remove_wraps m \<Longrightarrow> call_remove m n cb this = native_remove n cb this"
  by (induction m) auto

lemma invoke_calls: "fst (invoke cb e) = calls cb"
  by (induction cb arbitrary: e) auto

lemma fresh_not_listed:
  "wf_instance this \<Longrightarrow> (n, Wrapped (next_ref this) cb wrapper) \<notin> set (listeners this)"
  by (auto simp: wf_instance_def)

lemma wrap_result:
  assumes "RTCPeerConnection w = Some p"
  shows "\<exists>w' p'. wrapPeerConnectionEvent (WObject w) ev wrapper = Inr w'
           \<and> RTCPeerConnection w' = Some p'
           \<and> navigator w' = navigator w
           \<and> addEventListener_m p' = PatchedAdd ev wrapper (addEventListener_m p)
           \<and> removeEventListener_m p' = PatchedRemove ev (removeEventListener_m p)
           \<and> accessors p' = AList.update (''on'' @ ev) ev (accessors p)"
  using assms by (simp add: wrapPeerConnectionEvent_def)

lemma patched_add_state:
  assumes "addEventListener_m p' = PatchedAdd ev wrapper orig"
    and "ev \<notin> add_wraps orig"
    and "wf_instance this"
  shows "addEventListener p' ev cb this =
           this\<lparr>listeners := listeners this @ [(ev, Wrapped (next_ref this) cb wrapper)],
                eventMap := Some (AList.update (toString cb) (Wrapped (next_ref this) cb wrapper)
                                   (case eventMap this of None \<Rightarrow> [] | Some m \<Rightarrow> m)),
                next_ref := Suc (next_ref this)\<rparr>"
  using assms fresh_not_listed [OF assms(3), of ev cb wrapper]
  by (simp add: addEventListener_def call_add_passthrough native_add_def Let_def)

lemma patched_remove_mapped:
  assumes "removeEventListener_m p' = PatchedRemove ev orig"
    and "ev \<notin> remove_wraps orig"
    and "eventMap this = Some m"
    and "map_of m (toString cb) = Some u"
  shows "removeEventListener p' ev cb this =
           this\<lparr>listeners := remove1 (ev, u) (listeners this),
                eventMap := Some (AList.delete (toString cb) m)\<rparr>"
  using assms
  by (simp add: removeEventListener_def call_remove_passthrough native_remove_def)

lemma patched_remove_unmapped:
  assumes "removeEventListener_m p' = PatchedRemove ev orig"
    and "ev \<notin> remove_wraps orig"
    and "(case eventMap this of None \<Rightarrow> None | Some m \<Rightarrow> map_of m (toString cb)) = None"
  shows "removeEventListener p' ev cb this = native_remove ev cb this"
  using assms
  by (auto simp add: removeEventListener_def call_remove_passthrough split: option.splits)

lemma calls_of_unregistered:
  "\<not> registered this n f \<Longrightarrow> calls_of f (dispatchEvent this n e) = []"
  by (auto simp: registered_def calls_of_def dispatchEvent_def filter_empty_conv invoke_calls)

lemma dispatch_append:
  "listeners t = listeners this @ [(n, cb)] \<Longrightarrow>
   dispatchEvent t n e = dispatchEvent this n e @ [invoke cb e]"
  by (simp add: dispatchEvent_def)

text \<open>
  C4, with the two conditions under which it holds: let the prototype be patched by
  \<open>wrapPeerConnectionEvent\<close> for an event that it did not wrap before, and take an
  instance on which the application function \<open>f\<close> is not yet registered for that
  event. After \<open>f\<close> is registered through the patched \<open>addEventListener\<close>,
  delivering an event \<open>e\<close> calls \<open>f\<close> once, with \<open>wrapper e\<close>; after \<open>f\<close> is
  unregistered through the patched \<open>removeEventListener\<close>, delivering \<open>e\<close> calls \<open>f\<close>
  no more. For any other event name the patched methods do what the methods they
  replaced do.
\<close>

theorem wrapped_event_delivery:
  assumes "RTCPeerConnection w = Some p"
    and "ev \<notin> proto_wraps p"
    and "wf_instance this"
    and "\<not> registered this ev f"
  shows "\<exists>w' p'. wrapPeerConnectionEvent (WObject w) ev wrapper = Inr w'
           \<and> RTCPeerConnection w' = Some p'
           \<and> (let this1 = addEventListener p' ev (App f) this;
                   this2 = removeEventListener p' ev (App f) this1
               in calls_of f (dispatchEvent this1 ev e) = [(f, wrapper e)]
                  \<and> calls_of f (dispatchEvent this2 ev e) = [])
           \<and> (\<forall>n cb t. n \<noteq> ev \<longrightarrow>
                  addEventListener p' n cb t = addEventListener p n cb t
                  \<and> removeEventListener p' n cb t = removeEventListener p n cb t)"
proof -
  from wrap_result [OF assms(1), of ev wrapper] obtain w' p' where
    w': "wrapPeerConnectionEvent (WObject w) ev wrapper = Inr w'"
    and p': "RTCPeerConnection w' = Some p'"
    and am: "addEventListener_m p' = PatchedAdd ev wrapper (addEventListener_m p)"
    and rm: "removeEventListener_m p' = PatchedRemove ev (removeEventListener_m p)"
    by blast
  from assms(2) have na: "ev \<notin> add_wraps (addEventListener_m p)"
    and nr: "ev \<notin> remove_wraps (removeEventListener_m p)"
    by (simp_all add: proto_wraps_def)
  define W where "W = Wrapped (next_ref this) (App f) wrapper"
  define m where "m = AList.update (toString (App f :: 'a callback)) W
                        (case eventMap this of None \<Rightarrow> [] | Some m \<Rightarrow> m)"
  define this1 where "this1 = addEventListener p' ev (App f) this"
  define this2 where "this2 = removeEventListener p' ev (App f) this1"
  have s1: "this1 = this\<lparr>listeners := listeners this @ [(ev, W)], eventMap := Some m,
                         next_ref := Suc (next_ref this)\<rparr>"
    unfolding this1_def W_def m_def by (rule patched_add_state [OF am na assms(3)])
  have fresh: "(ev, W) \<notin> set (listeners this)"
    unfolding W_def by (rule fresh_not_listed [OF assms(3)])
  have "map_of m (toString (App f :: 'a callback)) = Some W"
    by (simp add: m_def update_conv')
  with s1 have "this2 = this1\<lparr>listeners := remove1 (ev, W) (listeners this1),
                              eventMap := Some (AList.delete (toString (App f :: 'a callback)) m)\<rparr>"
    unfolding this2_def by (intro patched_remove_mapped [OF rm nr]) simp_all
  with s1 fresh have l2: "listeners this2 = listeners this"
    by (simp add: remove1_append)
  have "listeners this1 = listeners this @ [(ev, W)]"
    using s1 by simp
  then have "dispatchEvent this1 ev e = dispatchEvent this ev e @ [invoke W e]"
    by (rule dispatch_append)
  then have d1: "calls_of f (dispatchEvent this1 ev e) = [(f, wrapper e)]"
    using calls_of_unregistered [OF assms(4), of e]
    by (simp add: calls_of_def W_def)
  have d2: "calls_of f (dispatchEvent this2 ev e) = []"
    using calls_of_unregistered [OF assms(4), of e] l2 by (simp add: dispatchEvent_def)
  have pt: "\<forall>n cb t. n \<noteq> ev \<longrightarrow>
                  addEventListener p' n cb t = addEventListener p n cb t
                  \<and> removeEventListener p' n cb t = removeEventListener p n cb t"
    by (simp add: addEventListener_def removeEventListener_def am rm)
  from w' p' d1 d2 pt show ?thesis
    unfolding this1_def this2_def Let_def by blast
qed

theorem wrapped_event_delivery_witness:
  "RTCPeerConnection \<lparr>navigator = None, RTCPeerConnection = Some (native_proto :: nat rtc_proto)\<rparr>
     = Some native_proto
   \<and> ''track'' \<notin> proto_wraps (native_proto :: nat rtc_proto)
   \<and> wf_instance (native_add ''track'' (App (AppFn 1 ''g'')) (new_instance :: nat peer_connection))
   \<and> \<not> registered (native_add ''track'' (App (AppFn 1 ''g'')) (new_instance :: nat peer_connection))
          ''track'' (AppFn 0 ''f'')
   \<and> (\<exists>w' p'. wrapPeerConnectionEvent
          (WObject \<lparr>navigator = None, RTCPeerConnection = Some (native_proto :: nat rtc_proto)\<rparr>)
          ''track'' Suc = Inr w'
        \<and> RTCPeerConnection w' = Some p'
        \<and> (let this1 = addEventListener p' ''track'' (App (AppFn 0 ''f''))
                          (native_add ''track'' (App (AppFn 1 ''g'')) new_instance);
                this2 = removeEventListener p' ''track'' (App (AppFn 0 ''f'')) this1
            in calls_of (AppFn 0 ''f'') (dispatchEvent this1 ''track'' 7) = [(AppFn 0 ''f'', Suc 7)]
               \<and> calls_of (AppFn 0 ''f'') (dispatchEvent this2 ''track'' 7) = [])
        \<and> (\<forall>n cb t. n \<noteq> ''track'' \<longrightarrow>
               addEventListener p' n cb t = addEventListener native_proto n cb t
               \<and> removeEventListener p' n cb t = removeEventListener native_proto n cb t))"
proof -
  have h1: "RTCPeerConnection \<lparr>navigator = None, RTCPeerConnection = Some (native_proto :: nat rtc_proto)\<rparr>
              = Some native_proto"
    by simp
  have h2: "''track'' \<notin> proto_wraps (native_proto :: nat rtc_proto)"
    by (simp add: proto_wraps_def native_proto_def)
  have h3: "wf_instance (native_add ''track'' (App (AppFn 1 ''g'')) (new_instance :: nat peer_connection))"
    by (simp add: wf_instance_def native_add_def new_instance_def)
  have h4: "\<not> registered (native_add ''track'' (App (AppFn 1 ''g'')) (new_instance :: nat peer_connection))
               ''track'' (AppFn 0 ''f'')"
    by (simp add: registered_def native_add_def new_instance_def)
  from h1 h2 h3 h4 wrapped_event_delivery [OF h1 h2 h3 h4, of Suc 7] show ?thesis
    by blast
qed

text \<open>
  C4 as worded, for every context and instance, does not hold. The patched
  \<open>addEventListener\<close> makes a new arrow function at each call, so a function that is
  registered already is registered again: after a second registration an event calls
  \<open>f\<close> twice. And on a prototype that is patched for the same event a second time the
  arrow functions nest: \<open>f\<close> receives the event transformed twice (9 for the event 7
  and the wrapper \<open>Suc\<close>) and not \<open>wrapper e\<close> (8).
\<close>

theorem wrapped_event_delivery_counterexample:
  "wrapPeerConnectionEvent
      (WObject \<lparr>navigator = None, RTCPeerConnection = Some (native_proto :: nat rtc_proto)\<rparr>)
      ''track'' Suc
     = Inr \<lparr>navigator = None,
            RTCPeerConnection = Some
              \<lparr>addEventListener_m = PatchedAdd ''track'' Suc NativeAdd,
               removeEventListener_m = PatchedRemove ''track'' NativeRemove,
               accessors = [(''ontrack'', ''track'')]\<rparr>\<rparr>
   \<and> calls_of (AppFn 0 ''f'')
        (dispatchEvent
          (addEventListener
             \<lparr>addEventListener_m = PatchedAdd ''track'' Suc NativeAdd,
              removeEventListener_m = PatchedRemove ''track'' NativeRemove,
              accessors = [(''ontrack'', ''track'')]\<rparr>
             ''track'' (App (AppFn 0 ''f''))
             (addEventListener
                \<lparr>addEventListener_m = PatchedAdd ''track'' Suc NativeAdd,
                 removeEventListener_m = PatchedRemove ''track'' NativeRemove,
                 accessors = [(''ontrack'', ''track'')]\<rparr>
                ''track'' (App (AppFn 0 ''f'')) new_instance))
          ''track'' (7 :: nat))
     = [(AppFn 0 ''f'', 8), (AppFn 0 ''f'', 8)]
   \<and> wrapPeerConnectionEvent
      (WObject \<lparr>navigator = None,
                RTCPeerConnection = Some
                  \<lparr>addEventListener_m = PatchedAdd ''track'' Suc NativeAdd,
                   removeEventListener_m = PatchedRemove ''track'' NativeRemove,
                   accessors = [(''ontrack'', ''track'')]\<rparr>\<rparr>)
      ''track'' Suc
     = Inr \<lparr>navigator = None,
            RTCPeerConnection = Some
              \<lparr>addEventListener_m = PatchedAdd ''track'' Suc (PatchedAdd ''track'' Suc NativeAdd),
               removeEventListener_m = PatchedRemove ''track'' (PatchedRemove ''track'' NativeRemove),
               accessors = [(''ontrack'', ''track'')]\<rparr>\<rparr>
   \<and> calls_of (AppFn 0 ''f'')
        (dispatchEvent
          (addEventListener
             \<lparr>addEventListener_m = PatchedAdd ''track'' Suc (PatchedAdd ''track'' Suc NativeAdd),
              removeEventListener_m = PatchedRemove ''track'' (PatchedRemove ''track'' NativeRemove),
              accessors = [(''ontrack'', ''track'')]\<rparr>
             ''track'' (App (AppFn 0 ''f'')) new_instance)
          ''track'' (7 :: nat))
     = [(AppFn 0 ''f'', 9)]"
  by (simp add: wrapPeerConnectionEvent_def native_proto_def addEventListener_def
        native_add_def new_instance_def dispatchEvent_def calls_of_def Let_def)

subsection \<open>The allocation invariant holds on every instance an application can reach\<close>

lemma allocated_mono: "allocated n cb \<Longrightarrow> n \<le> n' \<Longrightarrow> allocated n' cb"
  by (cases cb) auto

lemma patched_remove_cases:
  "call_remove (PatchedRemove ev orig) n cb this = call_remove orig n cb this
   \<or> (\<exists>em u. eventMap this = Some em
          \<and> call_remove (PatchedRemove ev orig) n cb this
              = call_remove orig n u (this\<lparr>eventMap := Some (AList.delete (toString cb) em)\<rparr>))"
  by (auto split: option.splits)

lemma call_add_wf:
  "wf_instance this \<Longrightarrow> allocated (next_ref this) cb \<Longrightarrow> wf_instance (call_add m n cb this)"
proof (induction m arbitrary: cb this)
  case NativeAdd
  then show ?case by (auto simp: wf_instance_def native_add_def)
next
  case (PatchedAdd ev wrapper orig)
  show ?case
  proof (cases "n = ev")
    case False
    with PatchedAdd.IH [OF PatchedAdd.prems] show ?thesis by simp
  next
    case True
    define t where "t = this\<lparr>eventMap := Some (AList.update (toString cb)
                                  (Wrapped (next_ref this) cb wrapper)
                                  (case eventMap this of None \<Rightarrow> [] | Some m \<Rightarrow> m)),
                               next_ref := Suc (next_ref this)\<rparr>"
    have "wf_instance t"
      using PatchedAdd.prems(1) by (auto simp: t_def wf_instance_def intro: allocated_mono)
    moreover have "allocated (next_ref t) (Wrapped (next_ref this) cb wrapper)"
      by (simp add: t_def)
    ultimately have "wf_instance (call_add orig n (Wrapped (next_ref this) cb wrapper) t)"
      by (rule PatchedAdd.IH)
    then show ?thesis using True by (simp add: Let_def t_def)
  qed
qed

lemma call_remove_wf:
  "wf_instance this \<Longrightarrow> wf_instance (call_remove m n cb this)"
proof (induction m arbitrary: cb this)
  case NativeRemove
  then show ?case
    using set_remove1_subset [of "(n, cb)" "listeners this"]
    by (auto simp: wf_instance_def native_remove_def)
next
  case (PatchedRemove ev orig)
  from patched_remove_cases [of ev orig n cb this] show ?case
  proof (elim disjE exE conjE)
    assume eq: "call_remove (PatchedRemove ev orig) n cb this = call_remove orig n cb this"
    show ?thesis unfolding eq by (rule PatchedRemove.IH [OF PatchedRemove.prems])
  next
    fix em u
    assume eq: "call_remove (PatchedRemove ev orig) n cb this
                 = call_remove orig n u (this\<lparr>eventMap := Some (AList.delete (toString cb) em)\<rparr>)"
    have "wf_instance (this\<lparr>eventMap := Some (AList.delete (toString cb) em)\<rparr>)"
      using PatchedRemove.prems by (simp add: wf_instance_def)
    then show ?thesis unfolding eq by (rule PatchedRemove.IH)
  qed
qed

lemma step_wf: "wf_instance this \<Longrightarrow> wf_instance (step p x this)"
proof (cases x)
  case (AddListener n f)
  assume "wf_instance this"
  then show ?thesis using AddListener by (simp add: addEventListener_def call_add_wf)
next
  case (RemoveListener n f)
  assume "wf_instance this"
  then show ?thesis using RemoveListener by (simp add: removeEventListener_def call_remove_wf)
next
  case (AssignHandler ev v)
  assume wf: "wf_instance this"
  define this1 where "this1 =
        (case map_of (own_props this) (''_on'' @ ev) of
           Some old \<Rightarrow>
             (let r = removeEventListener p ev old this
              in r\<lparr>own_props := AList.delete (''_on'' @ ev) (own_props r)\<rparr>)
         | None \<Rightarrow> this)"
  have "wf_instance (r\<lparr>own_props := ps\<rparr>) = wf_instance r" for r :: "'a peer_connection" and ps
    by (simp add: wf_instance_def)
  note own = this
  have w1: "wf_instance this1"
    using wf by (simp add: this1_def own Let_def removeEventListener_def call_remove_wf
                   split: option.splits)
  show ?thesis
  proof (cases v)
    case None
    with w1 AssignHandler show ?thesis by (simp add: on_set_def this1_def)
  next
    case (Some f)
    have "wf_instance (addEventListener p ev (App f)
            (this1\<lparr>own_props := AList.update (''_on'' @ ev) (App f) (own_props this1)\<rparr>))"
      unfolding addEventListener_def by (rule call_add_wf) (simp_all add: own w1)
    with Some AssignHandler show ?thesis by (simp add: on_set_def this1_def Let_def)
  qed
qed

lemma run_wf: "wf_instance this \<Longrightarrow> wf_instance (run p ops this)"
  unfolding run_def by (induction ops arbitrary: this) (simp_all add: step_wf)

lemma new_instance_wf: "wf_instance new_instance"
  by (simp add: wf_instance_def new_instance_def)

lemma wf_after_add:
  "wf_instance this \<Longrightarrow>
   wf_instance (this\<lparr>listeners := listeners this @ [(n, Wrapped (next_ref this) cb wrapper)],
                     eventMap := em, next_ref := Suc (next_ref this)\<rparr>)"
  by (auto simp: wf_instance_def intro: allocated_mono)


subsection \<open>The property on<event>\<close>

lemma on_get_delete [simp]:
  "on_get ev (this\<lparr>own_props := AList.delete (''_on'' @ ev) ps\<rparr>) = None"
  by (simp add: on_get_def delete_conv')

lemma on_get_update [simp]:
  "on_get ev (this\<lparr>own_props := AList.update (''_on'' @ ev) c ps\<rparr>) = Some c"
  by (simp add: on_get_def update_conv')

lemma entries_simps [simp]:
  "entries (this\<lparr>listeners := ls\<rparr>) = entries this"
  "entries (this\<lparr>own_props := ps\<rparr>) = entries this"
  "entries (this\<lparr>next_ref := k\<rparr>) = entries this"
  "entries (this\<lparr>eventMap := Some m\<rparr>) = m"
  by (simp_all add: entries_def)

lemma entries_native [simp]:
  "entries (native_add n cb this) = entries this"
  "entries (native_remove n cb this) = entries this"
  by (simp_all add: native_add_def native_remove_def)

lemma paired_native: "paired native_proto"
  by (simp add: paired_def native_proto_def)

lemma paired_wrap:
  assumes "RTCPeerConnection w = Some p"
    and "paired p"
    and "wrapPeerConnectionEvent (WObject w) ev wrapper = Inr w'"
    and "RTCPeerConnection w' = Some p'"
  shows "paired p'"
  using assms by (auto simp: wrapPeerConnectionEvent_def paired_def)




lemma call_remove_own_props: "own_props (call_remove m n cb this) = own_props this"
  by (induction m arbitrary: cb this) (auto simp: native_remove_def split: option.splits)












subsection \<open>The keys of this._eventMap\<close>

lemma call_add_distinct:
  "distinct (map fst (entries this)) \<Longrightarrow> distinct (map fst (entries (call_add m n cb this)))"
proof (induction m arbitrary: cb this)
  case NativeAdd
  then show ?case by simp
next
  case (PatchedAdd ev wrapper orig)
  show ?case
  proof (cases "n = ev")
    case False
    with PatchedAdd.IH [OF PatchedAdd.prems, of cb] show ?thesis by simp
  next
    case True
    define t where "t = this\<lparr>eventMap := Some (AList.update (toString cb)
                                  (Wrapped (next_ref this) cb wrapper)
                                  (case eventMap this of None \<Rightarrow> [] | Some m \<Rightarrow> m)),
                               next_ref := Suc (next_ref this)\<rparr>"
    have "distinct (map fst (entries t))"
      using PatchedAdd.prems by (simp add: t_def entries_def distinct_update)
    from PatchedAdd.IH [OF this, of "Wrapped (next_ref this) cb wrapper"] show ?thesis
      using True by (simp add: Let_def t_def)
  qed
qed

lemma call_remove_distinct:
  "distinct (map fst (entries this)) \<Longrightarrow> distinct (map fst (entries (call_remove m n cb this)))"
proof (induction m arbitrary: cb this)
  case NativeRemove
  then show ?case by simp
next
  case (PatchedRemove ev orig)
  from patched_remove_cases [of ev orig n cb this] show ?case
  proof (elim disjE exE conjE)
    assume eq: "call_remove (PatchedRemove ev orig) n cb this = call_remove orig n cb this"
    show ?thesis unfolding eq by (rule PatchedRemove.IH [OF PatchedRemove.prems])
  next
    fix em u
    assume em: "eventMap this = Some em"
      and eq: "call_remove (PatchedRemove ev orig) n cb this
                 = call_remove orig n u (this\<lparr>eventMap := Some (AList.delete (toString cb) em)\<rparr>)"
    have "distinct (map fst (entries (this\<lparr>eventMap := Some (AList.delete (toString cb) em)\<rparr>)))"
      using PatchedRemove.prems em by (simp add: entries_def distinct_delete)
    then show ?thesis unfolding eq by (rule PatchedRemove.IH)
  qed
qed

lemma call_remove_keys:
  "fst ` set (entries (call_remove m n cb this)) \<subseteq> fst ` set (entries this)"
proof (induction m arbitrary: cb this)
  case NativeRemove
  show ?case by simp
next
  case (PatchedRemove ev orig)
  from patched_remove_cases [of ev orig n cb this] show ?case
  proof (elim disjE exE conjE)
    assume eq: "call_remove (PatchedRemove ev orig) n cb this = call_remove orig n cb this"
    show ?thesis unfolding eq by (rule PatchedRemove.IH)
  next
    fix em u
    assume em: "eventMap this = Some em"
      and eq: "call_remove (PatchedRemove ev orig) n cb this
                 = call_remove orig n u (this\<lparr>eventMap := Some (AList.delete (toString cb) em)\<rparr>)"
    have "fst ` set (entries (this\<lparr>eventMap := Some (AList.delete (toString cb) em)\<rparr>))
            \<subseteq> fst ` set (entries this)"
      using dom_delete_subset [of "toString cb" em] em by (simp add: entries_def)
    with PatchedRemove.IH [of u "this\<lparr>eventMap := Some (AList.delete (toString cb) em)\<rparr>"]
    show ?thesis unfolding eq by (rule subset_trans)
  qed
qed

lemma patched_remove_drops_key:
  assumes "removeEventListener_m p' = PatchedRemove ev orig"
    and "distinct (map fst (entries this))"
  shows "map_of (entries (removeEventListener p' ev cb this)) (toString cb) = None"
proof (cases "map_of (entries this) (toString cb)")
  case None
  then have "removeEventListener p' ev cb this = call_remove orig ev cb this"
    using assms(1) by (auto simp: removeEventListener_def entries_def split: option.splits)
  moreover from None have "toString cb \<notin> fst ` set (entries this)"
    by (simp add: map_of_eq_None_iff)
  ultimately have "toString cb \<notin> fst ` set (entries (removeEventListener p' ev cb this))"
    using call_remove_keys [of orig ev cb this] by auto
  then show ?thesis by (simp add: map_of_eq_None_iff)
next
  case (Some u)
  then obtain em where em: "eventMap this = Some em" and u: "map_of em (toString cb) = Some u"
    by (cases "eventMap this") (auto simp: entries_def)
  then have "removeEventListener p' ev cb this
               = call_remove orig ev u (this\<lparr>eventMap := Some (AList.delete (toString cb) em)\<rparr>)"
    using assms(1) by (simp add: removeEventListener_def)
  moreover have "toString cb \<notin> fst ` set (AList.delete (toString cb) em)"
    using assms(2) em by (simp add: entries_def delete_conv' map_of_eq_None_iff [symmetric])
  ultimately have "toString cb \<notin> fst ` set (entries (removeEventListener p' ev cb this))"
    using call_remove_keys [of orig ev u "this\<lparr>eventMap := Some (AList.delete (toString cb) em)\<rparr>"]
    by auto
  then show ?thesis by (simp add: map_of_eq_None_iff)
qed

lemma on_set_distinct:
  "distinct (map fst (entries this)) \<Longrightarrow> distinct (map fst (entries (on_set ev p v this)))"
  by (auto simp: on_set_def Let_def addEventListener_def removeEventListener_def
           intro!: call_add_distinct call_remove_distinct split: option.splits)

lemma step_distinct:
  "distinct (map fst (entries this)) \<Longrightarrow> distinct (map fst (entries (step p x this)))"
  by (cases x) (simp_all add: addEventListener_def removeEventListener_def
                  call_add_distinct call_remove_distinct on_set_distinct)

lemma run_distinct:
  "distinct (map fst (entries this)) \<Longrightarrow> distinct (map fst (entries (run p ops this)))"
  unfolding run_def by (induction ops arbitrary: this) (simp_all add: step_distinct)

lemma distinct_keys_one_entry:
  "distinct (map fst m) \<Longrightarrow> length (filter (\<lambda>kv. fst kv = k) m) \<le> 1"
  by (induction m) (auto simp: filter_empty_conv image_iff)


text \<open>
  C5: on an instance of a patched prototype, after any sequence of registrations,
  removals and handler assignments, \<open>this._eventMap\<close> has at most one entry under the
  key of each application function, and once a function has been unregistered for the
  wrapped event through the patched \<open>removeEventListener\<close>, the map has no entry under
  its key.
\<close>

theorem event_map_one_entry_per_callback:
  fixes w :: "'e window"
  assumes "RTCPeerConnection w = Some p"
  shows "\<exists>w' p'. wrapPeerConnectionEvent (WObject w) ev wrapper = Inr w'
           \<and> RTCPeerConnection w' = Some p'
           \<and> (\<forall>ops. (\<forall>x \<in> set ops. op_ok p' x) \<longrightarrow>
                (let s = run p' ops new_instance
                 in (\<forall>f. length (filter (\<lambda>kv. fst kv = toString (App f :: 'e callback))
                                     (entries s)) \<le> 1)
                    \<and> (\<forall>f. map_of (entries (removeEventListener p' ev (App f) s))
                              (toString (App f :: 'e callback)) = None)))"
proof -
  from wrap_result [OF assms(1), of ev wrapper] obtain w' p' where
    w': "wrapPeerConnectionEvent (WObject w) ev wrapper = Inr w'"
    and p': "RTCPeerConnection w' = Some p'"
    and rm: "removeEventListener_m p' = PatchedRemove ev (removeEventListener_m p)"
    by blast
  have d: "distinct (map fst (entries (run p' ops (new_instance :: 'e peer_connection))))" for ops
    by (rule run_distinct) (simp add: new_instance_def entries_def)
  have "(\<forall>f. length (filter (\<lambda>kv. fst kv = toString (App f :: 'e callback))
                        (entries (run p' ops new_instance))) \<le> 1)
        \<and> (\<forall>f. map_of (entries (removeEventListener p' ev (App f) (run p' ops new_instance)))
                  (toString (App f :: 'e callback)) = None)" for ops
    using distinct_keys_one_entry [OF d] patched_remove_drops_key [OF rm d] by blast
  with w' p' show ?thesis unfolding Let_def by blast
qed

theorem event_map_one_entry_per_callback_witness:
  "\<exists>w' p'. wrapPeerConnectionEvent
        (WObject \<lparr>navigator = None, RTCPeerConnection = Some (native_proto :: nat rtc_proto)\<rparr>)
        ''track'' Suc = Inr w'
     \<and> RTCPeerConnection w' = Some p'
     \<and> list_all (op_ok p')
         [AddListener ''track'' (AppFn 0 ''f''), AddListener ''track'' (AppFn 0 ''f''),
          AssignHandler ''track'' (Some (AppFn 1 ''g'')), RemoveListener ''track'' (AppFn 0 ''f'')]
     \<and> (\<forall>f. length (filter (\<lambda>kv. fst kv = toString (App f :: nat callback))
           (entries (run p'
              [AddListener ''track'' (AppFn 0 ''f''), AddListener ''track'' (AppFn 0 ''f''),
               AssignHandler ''track'' (Some (AppFn 1 ''g'')), RemoveListener ''track'' (AppFn 0 ''f'')]
              new_instance))) \<le> 1)
     \<and> (\<forall>f. map_of (entries (removeEventListener p' ''track'' (App f)
           (run p'
              [AddListener ''track'' (AppFn 0 ''f''), AddListener ''track'' (AppFn 0 ''f''),
               AssignHandler ''track'' (Some (AppFn 1 ''g'')), RemoveListener ''track'' (AppFn 0 ''f'')]
              new_instance)))
           (toString (App f :: nat callback)) = None)"
proof -
  let ?w = "\<lparr>navigator = None, RTCPeerConnection = Some (native_proto :: nat rtc_proto)\<rparr>"
  let ?ops = "[AddListener ''track'' (AppFn 0 ''f''), AddListener ''track'' (AppFn 0 ''f''),
               AssignHandler ''track'' (Some (AppFn 1 ''g'')), RemoveListener ''track'' (AppFn 0 ''f'')]"
  have h: "RTCPeerConnection ?w = Some native_proto" by simp
  from event_map_one_entry_per_callback [OF h, of "''track''" Suc] obtain w' p' where
    a: "wrapPeerConnectionEvent (WObject ?w) ''track'' Suc = Inr w'"
    and b: "RTCPeerConnection w' = Some p'"
    and c: "\<forall>ops. (\<forall>x \<in> set ops. op_ok p' x) \<longrightarrow>
                (let s = run p' ops new_instance
                 in (\<forall>f. length (filter (\<lambda>kv. fst kv = toString (App f :: nat callback))
                                     (entries s)) \<le> 1)
                    \<and> (\<forall>f. map_of (entries (removeEventListener p' ''track'' (App f) s))
                              (toString (App f :: nat callback)) = None))"
    by blast
  from a b have acc: "accessors p' = [(''ontrack'', ''track'')]"
    by (auto simp: wrapPeerConnectionEvent_def native_proto_def)
  then have ok: "list_all (op_ok p') ?ops" by simp
  then have "\<forall>x \<in> set ?ops. op_ok p' x" by (simp only: list_all_iff)
  with c have "let s = run p' ?ops new_instance
                 in (\<forall>f. length (filter (\<lambda>kv. fst kv = toString (App f :: nat callback))
                                     (entries s)) \<le> 1)
                    \<and> (\<forall>f. map_of (entries (removeEventListener p' ''track'' (App f) s))
                              (toString (App f :: nat callback)) = None)"
    by blast
  with a b ok show ?thesis unfolding Let_def by blast
qed


subsection \<open>Registering the same function twice\<close>

text \<open>
  C10: let the prototype be patched for an event that it did not wrap before, and take
  an instance on which the application function \<open>f\<close> is not yet registered for that
  event. Registering \<open>f\<close> twice creates two arrow functions and two listeners; the
  second registration replaces the map's entry for \<open>f\<close>. One removal then
  unregisters the second arrow function only and deletes the entry, so that an event
  still calls \<open>f\<close> once, through the first arrow function, and a further removal of
  \<open>f\<close> changes nothing.
\<close>

theorem double_registration_keeps_first:
  fixes w :: "'e window"
  assumes "RTCPeerConnection w = Some p"
    and "ev \<notin> proto_wraps p"
    and "wf_instance this"
    and "\<not> registered this ev f"
  shows "\<exists>w' p'. wrapPeerConnectionEvent (WObject w) ev wrapper = Inr w'
           \<and> RTCPeerConnection w' = Some p'
           \<and> (let W1 = Wrapped (next_ref this) (App f) wrapper;
                   W2 = Wrapped (Suc (next_ref this)) (App f) wrapper;
                   this1 = addEventListener p' ev (App f) this;
                   this2 = addEventListener p' ev (App f) this1;
                   this3 = removeEventListener p' ev (App f) this2
               in map_of (entries this1) (toString (App f :: 'e callback)) = Some W1
                  \<and> map_of (entries this2) (toString (App f :: 'e callback)) = Some W2
                  \<and> listeners this2 = listeners this @ [(ev, W1), (ev, W2)]
                  \<and> listeners this3 = listeners this @ [(ev, W1)]
                  \<and> map_of (entries this3) (toString (App f :: 'e callback)) = None
                  \<and> (\<forall>e. calls_of f (dispatchEvent this3 ev e) = [(f, wrapper e)])
                  \<and> removeEventListener p' ev (App f) this3 = this3)"
proof -
  from wrap_result [OF assms(1), of ev wrapper] obtain w' p' where
    w': "wrapPeerConnectionEvent (WObject w) ev wrapper = Inr w'"
    and p': "RTCPeerConnection w' = Some p'"
    and am: "addEventListener_m p' = PatchedAdd ev wrapper (addEventListener_m p)"
    and rm: "removeEventListener_m p' = PatchedRemove ev (removeEventListener_m p)"
    by blast
  from assms(2) have na: "ev \<notin> add_wraps (addEventListener_m p)"
    and nr: "ev \<notin> remove_wraps (removeEventListener_m p)"
    by (simp_all add: proto_wraps_def)
  define key where "key = toString (App f :: 'e callback)"
  define W1 where "W1 = Wrapped (next_ref this) (App f) wrapper"
  define W2 where "W2 = Wrapped (Suc (next_ref this)) (App f) wrapper"
  define m1 where "m1 = AList.update key W1 (case eventMap this of None \<Rightarrow> [] | Some m \<Rightarrow> m)"
  define this1 where "this1 = addEventListener p' ev (App f) this"
  define this2 where "this2 = addEventListener p' ev (App f) this1"
  define this3 where "this3 = removeEventListener p' ev (App f) this2"
  have s1: "this1 = this\<lparr>listeners := listeners this @ [(ev, W1)], eventMap := Some m1,
                         next_ref := Suc (next_ref this)\<rparr>"
    unfolding this1_def W1_def m1_def key_def by (rule patched_add_state [OF am na assms(3)])
  have wf1: "wf_instance this1"
    unfolding s1 W1_def by (rule wf_after_add [OF assms(3)])
  have "this2 = this1\<lparr>listeners := listeners this1 @ [(ev, Wrapped (next_ref this1) (App f) wrapper)],
                eventMap := Some (AList.update key (Wrapped (next_ref this1) (App f) wrapper)
                                   (case eventMap this1 of None \<Rightarrow> [] | Some m \<Rightarrow> m)),
                next_ref := Suc (next_ref this1)\<rparr>"
    unfolding this2_def key_def by (rule patched_add_state [OF am na wf1])
  then have s2: "this2 = this\<lparr>listeners := listeners this @ [(ev, W1), (ev, W2)],
                              eventMap := Some (AList.update key W2 m1),
                              next_ref := Suc (Suc (next_ref this))\<rparr>"
    by (simp add: s1 W2_def)
  have e2: "eventMap this2 = Some (AList.update key W2 m1)"
    by (simp add: s2)
  have l2: "map_of (AList.update key W2 m1) (toString (App f :: 'e callback)) = Some W2"
    by (simp add: key_def update_conv')
  have "this3 = this2\<lparr>listeners := remove1 (ev, W2) (listeners this2),
                      eventMap := Some (AList.delete (toString (App f :: 'e callback))
                                          (AList.update key W2 m1))\<rparr>"
    unfolding this3_def by (rule patched_remove_mapped [OF rm nr e2 l2])
  moreover have "(ev, W2) \<notin> set (listeners this)"
    using assms(3) by (auto simp: wf_instance_def W2_def)
  moreover have "W1 \<noteq> W2"
    by (simp add: W1_def W2_def)
  ultimately have s3: "this3 = this\<lparr>listeners := listeners this @ [(ev, W1)],
                              eventMap := Some (AList.delete key (AList.update key W2 m1)),
                              next_ref := Suc (Suc (next_ref this))\<rparr>"
    by (simp add: s2 remove1_append key_def)
  have a: "map_of (entries this1) key = Some W1"
    by (simp add: s1 entries_def m1_def update_conv')
  have b: "map_of (entries this2) key = Some W2"
    by (simp add: s2 entries_def update_conv')
  have c: "listeners this2 = listeners this @ [(ev, W1), (ev, W2)]"
    by (simp add: s2)
  have d: "listeners this3 = listeners this @ [(ev, W1)]"
    by (simp add: s3)
  have e: "map_of (entries this3) key = None"
    by (simp add: s3 entries_def delete_conv')
  have g: "calls_of f (dispatchEvent this3 ev x) = [(f, wrapper x)]" for x
    using dispatch_append [OF d, of x] calls_of_unregistered [OF assms(4), of x]
    by (simp add: calls_of_def W1_def)
  have "(ev, App f) \<notin> set (listeners this3)"
    using assms(4) by (auto simp: d registered_def W1_def)
  then have "native_remove ev (App f) this3 = this3"
    by (simp add: native_remove_def remove1_idem)
  moreover have "removeEventListener p' ev (App f) this3 = native_remove ev (App f) this3"
    using e by (intro patched_remove_unmapped [OF rm nr])
               (simp add: key_def entries_def split: option.splits)
  ultimately have h: "removeEventListener p' ev (App f) this3 = this3"
    by simp
  from w' p' a b c d e g h show ?thesis
    unfolding Let_def this1_def this2_def this3_def W1_def W2_def key_def by blast
qed


theorem double_registration_keeps_first_witness:
  "RTCPeerConnection \<lparr>navigator = None, RTCPeerConnection = Some (native_proto :: nat rtc_proto)\<rparr>
     = Some native_proto
   \<and> ''track'' \<notin> proto_wraps (native_proto :: nat rtc_proto)
   \<and> wf_instance (new_instance :: nat peer_connection)
   \<and> \<not> registered (new_instance :: nat peer_connection) ''track'' (AppFn 0 ''f'')
   \<and> (\<exists>w' p'. wrapPeerConnectionEvent
          (WObject \<lparr>navigator = None, RTCPeerConnection = Some (native_proto :: nat rtc_proto)\<rparr>)
          ''track'' Suc = Inr w'
        \<and> RTCPeerConnection w' = Some p'
        \<and> listeners (removeEventListener p' ''track'' (App (AppFn 0 ''f''))
             (addEventListener p' ''track'' (App (AppFn 0 ''f''))
               (addEventListener p' ''track'' (App (AppFn 0 ''f'')) new_instance)))
           = [(''track'', Wrapped 0 (App (AppFn 0 ''f'')) Suc)]
        \<and> (\<forall>e. calls_of (AppFn 0 ''f'')
              (dispatchEvent
                (removeEventListener p' ''track'' (App (AppFn 0 ''f''))
                  (addEventListener p' ''track'' (App (AppFn 0 ''f''))
                    (addEventListener p' ''track'' (App (AppFn 0 ''f'')) new_instance)))
                ''track'' e)
            = [(AppFn 0 ''f'', Suc e)]))"
proof -
  let ?w = "\<lparr>navigator = None, RTCPeerConnection = Some (native_proto :: nat rtc_proto)\<rparr>"
  have h1: "RTCPeerConnection ?w = Some native_proto"
    by simp
  have h2: "''track'' \<notin> proto_wraps (native_proto :: nat rtc_proto)"
    by (simp add: proto_wraps_def native_proto_def)
  have h3: "wf_instance (new_instance :: nat peer_connection)"
    by (simp add: wf_instance_def new_instance_def)
  have h4: "\<not> registered (new_instance :: nat peer_connection) ''track'' (AppFn 0 ''f'')"
    by (simp add: registered_def new_instance_def)
  have n: "next_ref (new_instance :: nat peer_connection) = 0"
    "listeners (new_instance :: nat peer_connection) = []"
    by (simp_all add: new_instance_def)
  from double_registration_keeps_first [OF h1 h2 h3 h4, of Suc] h1 h2 h3 h4 show ?thesis
    unfolding Let_def n by auto
qed

end
